theory Spec2Isabelle
  imports Main "HOL-Library.Multiset"
begin

section \<open>Data model (src/models/user.ts, src/models/todo.ts)\<close>

text \<open>
  The interfaces of the two model files become records. Both interfaces have fields called
  \<open>id\<close> and \<open>created_at\<close>, and the request interfaces repeat \<open>name\<close>, \<open>email\<close>, \<open>title\<close>, ...,
  so every field carries a prefix naming its interface: \<open>u_\<close> for User, \<open>t_\<close> for Todo,
  \<open>cu_\<close>/\<open>uu_\<close> for CreateUserRequest/UpdateUserRequest and \<open>ct_\<close>/\<open>ut_\<close> for
  CreateTodoRequest/UpdateTodoRequest.

  Row ids, and the ids a request names, are integers. A timestamp (the text that
  CURRENT_TIMESTAMP produces, \<open>YYYY-MM-DD HH:MM:SS\<close>, whose text order is the order of time)
  is the number of seconds it denotes. The BOOLEAN column \<open>completed\<close> holds 0 or 1 and is
  a \<open>bool\<close> (\<open>False\<close> for 0); the code's \<open>completed ? 1 : 0\<close> is then the identity. An optional
  field (\<open>description?: string\<close>) is an \<open>option\<close>: \<open>None\<close> is \<open>undefined\<close> in a request and NULL
  in a row.
\<close>

record User =
  u_id :: int
  u_name :: string
  u_email :: string
  u_created_at :: nat

record CreateUserRequest =
  cu_name :: string
  cu_email :: string

record UpdateUserRequest =
  uu_name :: "string option"
  uu_email :: "string option"

record Todo =
  t_id :: int
  t_user_id :: int
  t_title :: string
  t_description :: "string option"
  t_completed :: bool
  t_created_at :: nat
  t_updated_at :: nat

record CreateTodoRequest =
  ct_user_id :: int
  ct_title :: string
  ct_description :: "string option"

record UpdateTodoRequest =
  ut_title :: "string option"
  ut_description :: "string option"
  ut_completed :: "bool option"


section \<open>The storage handle (src/lib/database.ts)\<close>

text \<open>
  The module opens one SQLite connection, sets \<open>PRAGMA journal_mode = WAL\<close> and creates the
  two tables. The state of that connection is: the rows of each table in rowid order, the
  AUTOINCREMENT counter of each table (the largest rowid the table ever held), and the
  connection's \<open>foreign_keys\<close> pragma. SQLite enforces a FOREIGN KEY clause, its
  ON DELETE CASCADE action included, only on a connection whose \<open>foreign_keys\<close> pragma is on.
  The pragma belongs to the connection, not to the database file, and is off on a newly
  opened connection (SQLite's default, kept for backward compatibility; only a library
  built with SQLITE_DEFAULT_FOREIGN_KEYS=1 starts with it on). The model keeps the pragma
  as a field of the state, so that both behaviours of a DELETE can be stated.
\<close>

record Database =
  foreign_keys :: bool
  users :: "User list"
  users_seq :: int
  todos :: "Todo list"
  todos_seq :: int

text \<open>
  The handle as database.ts leaves it on a fresh file: the only pragma it sets is
  \<open>journal_mode\<close>, and the controllers issue none, so \<open>foreign_keys\<close> keeps the value the
  connection was opened with.
\<close>

definition db_init :: Database where
  "db_init = \<lparr>foreign_keys = False, users = [], users_seq = 0, todos = [], todos_seq = 0\<rparr>"


section \<open>The SQL statements the controllers run\<close>

text \<open>The message of the error a statement throws.\<close>

type_synonym sql_error = string

text \<open>INTEGER PRIMARY KEY AUTOINCREMENT: one more than the largest rowid ever in the table.\<close>

definition next_rowid :: "int \<Rightarrow> int list \<Rightarrow> int" where
  "next_rowid seq ids = fold max ids seq + 1"

text \<open>\<open>SELECT * FROM users WHERE id = ?1\<close>, read with \<open>.get\<close>: the first row or nothing.\<close>

definition sql_select_user_by_id :: "Database \<Rightarrow> int \<Rightarrow> User option" where
  "sql_select_user_by_id d i = find (\<lambda>u. u_id u = i) (users d)"

text \<open>\<open>SELECT * FROM todos WHERE id = ?1\<close>.\<close>

definition sql_select_todo_by_id :: "Database \<Rightarrow> int \<Rightarrow> Todo option" where
  "sql_select_todo_by_id d i = find (\<lambda>t. t_id t = i) (todos d)"

text \<open>
  \<open>INSERT INTO users (name, email) VALUES (?1, ?2)\<close>. The UNIQUE constraint on \<open>email\<close>
  rejects the row, and changes nothing, when a row with that email exists; \<open>created_at\<close>
  takes its default CURRENT_TIMESTAMP, the time \<open>now\<close> of the statement. The result is
  \<open>lastInsertRowid\<close> and the new state.
\<close>

definition sql_insert_user ::
  "Database \<Rightarrow> string \<Rightarrow> string \<Rightarrow> nat \<Rightarrow> sql_error + (int \<times> Database)" where
  "sql_insert_user d n e now =
     (if list_ex (\<lambda>u. u_email u = e) (users d)
      then Inl ''UNIQUE constraint failed: users.email''
      else let i = next_rowid (users_seq d) (map u_id (users d))
           in Inr (i, d\<lparr>users := users d @ [\<lparr>u_id = i, u_name = n, u_email = e, u_created_at = now\<rparr>],
                        users_seq := i\<rparr>))"

text \<open>
  \<open>INSERT INTO todos (user_id, title, description) VALUES (?1, ?2, ?3)\<close>: \<open>completed\<close>
  defaults to 0, \<open>created_at\<close> and \<open>updated_at\<close> to CURRENT_TIMESTAMP. The foreign key is
  checked only when the connection enforces foreign keys.
\<close>

definition sql_insert_todo ::
  "Database \<Rightarrow> int \<Rightarrow> string \<Rightarrow> string option \<Rightarrow> nat \<Rightarrow> sql_error + (int \<times> Database)" where
  "sql_insert_todo d uid ttl descr now =
     (if foreign_keys d \<and> \<not> list_ex (\<lambda>u. u_id u = uid) (users d)
      then Inl ''FOREIGN KEY constraint failed''
      else let i = next_rowid (todos_seq d) (map t_id (todos d))
           in Inr (i, d\<lparr>todos := todos d @
                          [\<lparr>t_id = i, t_user_id = uid, t_title = ttl, t_description = descr,
                            t_completed = False, t_created_at = now, t_updated_at = now\<rparr>],
                        todos_seq := i\<rparr>))"

text \<open>
  The controllers build the SET clause of an UPDATE from two parallel arrays, \<open>updates\<close>
  (the column assignments) and \<open>values\<close> (their parameters). The model keeps one list of
  assignments, each with its value.
\<close>

datatype user_assign = SetName string | SetEmail string

datatype todo_assign = SetTitle string | SetDescription string | SetCompleted bool | SetUpdatedAtNow

fun apply_user_assign :: "user_assign \<Rightarrow> User \<Rightarrow> User" where
  "apply_user_assign (SetName n) u = u\<lparr>u_name := n\<rparr>"
| "apply_user_assign (SetEmail e) u = u\<lparr>u_email := e\<rparr>"

fun apply_todo_assign :: "nat \<Rightarrow> todo_assign \<Rightarrow> Todo \<Rightarrow> Todo" where
  "apply_todo_assign now (SetTitle s) t = t\<lparr>t_title := s\<rparr>"
| "apply_todo_assign now (SetDescription s) t = t\<lparr>t_description := Some s\<rparr>"
| "apply_todo_assign now (SetCompleted b) t = t\<lparr>t_completed := b\<rparr>"
| "apply_todo_assign now SetUpdatedAtNow t = t\<lparr>t_updated_at := now\<rparr>"

text \<open>
  \<open>UPDATE users SET ... WHERE id = ?n\<close>. The statement fails, and changes nothing, when it
  would give a row an email that another row holds.
\<close>

definition sql_update_user :: "Database \<Rightarrow> user_assign list \<Rightarrow> int \<Rightarrow> sql_error + Database" where
  "sql_update_user d as i =
     (if list_ex (\<lambda>u. u_id u = i \<and> u_email (fold apply_user_assign as u) \<noteq> u_email u \<and>
                      list_ex (\<lambda>v. u_id v \<noteq> i \<and> u_email v = u_email (fold apply_user_assign as u))
                        (users d))
           (users d)
      then Inl ''UNIQUE constraint failed: users.email''
      else Inr (d\<lparr>users := map (\<lambda>u. if u_id u = i then fold apply_user_assign as u else u)
                              (users d)\<rparr>))"

text \<open>\<open>UPDATE todos SET ... WHERE id = ?n\<close>, run at time \<open>now\<close>.\<close>

definition sql_update_todo :: "Database \<Rightarrow> todo_assign list \<Rightarrow> int \<Rightarrow> nat \<Rightarrow> Database" where
  "sql_update_todo d as i now =
     d\<lparr>todos := map (\<lambda>t. if t_id t = i then fold (apply_todo_assign now) as t else t) (todos d)\<rparr>"

text \<open>
  \<open>DELETE FROM users WHERE id = ?1\<close>. The schema declares
  \<open>FOREIGN KEY (user_id) REFERENCES users(id) ON DELETE CASCADE\<close> on \<open>todos\<close>; the cascade
  runs only on a connection that enforces foreign keys.
\<close>

definition sql_delete_user :: "Database \<Rightarrow> int \<Rightarrow> Database" where
  "sql_delete_user d i =
     d\<lparr>users := filter (\<lambda>u. u_id u \<noteq> i) (users d),
       todos := (if foreign_keys d then filter (\<lambda>t. t_user_id t \<noteq> i) (todos d) else todos d)\<rparr>"

text \<open>\<open>DELETE FROM todos WHERE id = ?1\<close>.\<close>

definition sql_delete_todo :: "Database \<Rightarrow> int \<Rightarrow> Database" where
  "sql_delete_todo d i = d\<lparr>todos := filter (\<lambda>t. t_id t \<noteq> i) (todos d)\<rparr>"

text \<open>
  \<open>ORDER BY created_at DESC\<close>: the rows by decreasing timestamp. Rows with equal timestamps
  stay in the order of the scan (rowid order), which is what the engine's sorter yields.
\<close>

definition order_by_desc :: "('a \<Rightarrow> nat) \<Rightarrow> 'a list \<Rightarrow> 'a list" where
  "order_by_desc created xs = sort_key (\<lambda>r. - int (created r)) xs"

text \<open>
  The query parameters \<open>limit\<close> and \<open>offset\<close> are JavaScript numbers (\<open>@Query() limit: number\<close>),
  that is doubles, and are bound to the statement as they come. \<open>Whole i\<close> is a number whose
  value is the integer \<open>i\<close>; \<open>NotWhole\<close> is any other number (one with a fractional part such
  as 2.5, NaN, an infinity). Not every integer is the value of a double, so \<open>Whole\<close> ranges
  over more values than a request can carry; what is proved for every \<open>Whole i\<close> holds for
  those that can.
\<close>

datatype js_number = Whole int | NotWhole

text \<open>
  What SQLite makes of a number bound to LIMIT or OFFSET: the value must convert to a
  64-bit integer without loss, and a double does so only when it is an integer strictly
  between \<open>-2^63\<close> and \<open>2^63\<close>; anything else makes the statement fail with
  \<open>datatype mismatch\<close>.
\<close>

definition sql_int64 :: "js_number \<Rightarrow> int option" where
  "sql_int64 x =
     (case x of
        Whole i \<Rightarrow> if - (2 ^ 63) < i \<and> i < 2 ^ 63 then Some i else None
      | NotWhole \<Rightarrow> None)"

text \<open>
  \<open>LIMIT ?l OFFSET ?o\<close> as SQLite evaluates it: both values are checked before any row is
  produced; a negative OFFSET skips nothing and a negative LIMIT puts no bound on the number
  of rows.
\<close>

definition sql_limit_offset :: "js_number \<Rightarrow> js_number \<Rightarrow> 'a list \<Rightarrow> sql_error + 'a list" where
  "sql_limit_offset limit offset xs =
     (case sql_int64 limit of
        None \<Rightarrow> Inl ''datatype mismatch''
      | Some l \<Rightarrow>
          (case sql_int64 offset of
             None \<Rightarrow> Inl ''datatype mismatch''
           | Some off \<Rightarrow>
               (let ys = drop (nat off) xs in Inr (if l < 0 then ys else take (nat l) ys))))"


text \<open>
  \<open>SELECT * FROM todos WHERE 1=1 [AND user_id = ?] [AND completed = ?] ORDER BY created_at DESC\<close>:
  a filter that is absent matches every row.
\<close>

definition sql_select_todos_ordered :: "Database \<Rightarrow> int option \<Rightarrow> bool option \<Rightarrow> Todo list" where
  "sql_select_todos_ordered d user_id completed =
     order_by_desc t_created_at
       (filter (\<lambda>t. (case user_id of None \<Rightarrow> True | Some u \<Rightarrow> t_user_id t = u) \<and>
                    (case completed of None \<Rightarrow> True | Some c \<Rightarrow> t_completed t = c))
          (todos d))"


section \<open>Controller plumbing\<close>

text \<open>
  A handler either returns a value or throws \<open>Error(message)\<close>; the HTTP status of the
  response is what the controller's \<open>setStatus\<close> recorded last (\<open>None\<close>: never set, the
  framework then answers with the status of \<open>@SuccessResponse\<close>). \<open>Thrown st msg\<close> is an
  error together with the controller's status when it is thrown. Every handler returns the
  state of the storage with its result. A failure of the storage engine itself (an
  unreadable file, a full disk) is outside the model.
\<close>

datatype thrown = Thrown (status_of: "nat option") (message_of: string)

type_synonym 'a result = "thrown + (nat option \<times> 'a)"

text \<open>JavaScript's \<open>s.includes(t)\<close>.\<close>

fun str_includes :: "string \<Rightarrow> string \<Rightarrow> bool" where
  "str_includes [] t = (t = [])"
| "str_includes (c # s) t = (take (length t) (c # s) = t \<or> str_includes s t)"

text \<open>
  The catch block \<open>if (this.getStatus() === keep) throw error; this.setStatus(500);
  throw new Error(msg)\<close>.
\<close>

definition catch_keep :: "nat \<Rightarrow> string \<Rightarrow> thrown \<Rightarrow> thrown" where
  "catch_keep keep msg e = (if status_of e = Some keep then e else Thrown (Some 500) msg)"

text \<open>
  The catch block of createUser and the tail of updateUser's:
  \<open>if (error.message?.includes("UNIQUE constraint")) { this.setStatus(400); throw new
  Error("Email already exists") } this.setStatus(500); throw new Error(msg)\<close>.
\<close>

definition catch_unique :: "string \<Rightarrow> thrown \<Rightarrow> thrown" where
  "catch_unique msg e =
     (if str_includes (message_of e) ''UNIQUE constraint''
      then Thrown (Some 400) ''Email already exists''
      else Thrown (Some 500) msg)"


section \<open>UserController (src/controllers/user.controller.ts)\<close>


definition getUser_try :: "Database \<Rightarrow> int \<Rightarrow> User result" where
  "getUser_try d i =
     (case sql_select_user_by_id d i of
        None \<Rightarrow> Inl (Thrown (Some 404) ''User not found'')
      | Some user \<Rightarrow> Inr (None, user))"

definition getUser :: "Database \<Rightarrow> int \<Rightarrow> User result" where
  "getUser d i =
     (case getUser_try d i of
        Inl e \<Rightarrow> Inl (catch_keep 404 ''Failed to retrieve user'' e)
      | Inr r \<Rightarrow> Inr r)"

definition createUser_try :: "Database \<Rightarrow> CreateUserRequest \<Rightarrow> nat \<Rightarrow> User result \<times> Database" where
  "createUser_try d body now =
     (case sql_insert_user d (cu_name body) (cu_email body) now of
        Inl msg \<Rightarrow> (Inl (Thrown None msg), d)
      | Inr (rowid, d') \<Rightarrow>
          (case sql_select_user_by_id d' rowid of
             None \<Rightarrow> (Inl (Thrown (Some 500) ''Failed to create user''), d')
           | Some user \<Rightarrow> (Inr (Some 201, user), d')))"

definition createUser :: "Database \<Rightarrow> CreateUserRequest \<Rightarrow> nat \<Rightarrow> User result \<times> Database" where
  "createUser d body now =
     (case createUser_try d body now of
        (Inl e, d') \<Rightarrow> (Inl (catch_unique ''Failed to create user'' e), d')
      | (Inr r, d') \<Rightarrow> (Inr r, d'))"

definition updateUser_try :: "Database \<Rightarrow> int \<Rightarrow> UpdateUserRequest \<Rightarrow> User result \<times> Database" where
  "updateUser_try d i body =
     (case sql_select_user_by_id d i of
        None \<Rightarrow> (Inl (Thrown (Some 404) ''User not found''), d)
      | Some existingUser \<Rightarrow>
          (let updates = (case uu_name body of None \<Rightarrow> [] | Some n \<Rightarrow> [SetName n]) @
                         (case uu_email body of None \<Rightarrow> [] | Some e \<Rightarrow> [SetEmail e])
           in if length updates = 0 then (Inr (None, existingUser), d)
              else (case sql_update_user d updates i of
                      Inl msg \<Rightarrow> (Inl (Thrown None msg), d)
                    | Inr d' \<Rightarrow>
                        (case sql_select_user_by_id d' i of
                           None \<Rightarrow> (Inl (Thrown (Some 500) ''Failed to update user''), d')
                         | Some user \<Rightarrow> (Inr (None, user), d')))))"

definition updateUser :: "Database \<Rightarrow> int \<Rightarrow> UpdateUserRequest \<Rightarrow> User result \<times> Database" where
  "updateUser d i body =
     (case updateUser_try d i body of
        (Inl e, d') \<Rightarrow>
          (if status_of e = Some 404 then (Inl e, d')
           else (Inl (catch_unique ''Failed to update user'' e), d'))
      | (Inr r, d') \<Rightarrow> (Inr r, d'))"

definition deleteUser_try :: "Database \<Rightarrow> int \<Rightarrow> unit result \<times> Database" where
  "deleteUser_try d i =
     (case sql_select_user_by_id d i of
        None \<Rightarrow> (Inl (Thrown (Some 404) ''User not found''), d)
      | Some user \<Rightarrow> (Inr (Some 204, ()), sql_delete_user d i))"

definition deleteUser :: "Database \<Rightarrow> int \<Rightarrow> unit result \<times> Database" where
  "deleteUser d i =
     (case deleteUser_try d i of
        (Inl e, d') \<Rightarrow> (Inl (catch_keep 404 ''Failed to delete user'' e), d')
      | (Inr r, d') \<Rightarrow> (Inr r, d'))"


section \<open>TodoController (src/controllers/todo.controller.ts)\<close>

definition listTodos ::
  "Database \<Rightarrow> int option \<Rightarrow> bool option \<Rightarrow> js_number option \<Rightarrow> js_number option
     \<Rightarrow> Todo list result" where
  "listTodos d user_id completed limit offset =
     (let limit = (case limit of None \<Rightarrow> Whole 100 | Some l \<Rightarrow> l);
          offset = (case offset of None \<Rightarrow> Whole 0 | Some off \<Rightarrow> off)
      in case sql_limit_offset limit offset (sql_select_todos_ordered d user_id completed) of
           Inl msg \<Rightarrow> Inl (Thrown (Some 500) ''Failed to retrieve todos'')
         | Inr rows \<Rightarrow> Inr (None, rows))"

definition getTodo_try :: "Database \<Rightarrow> int \<Rightarrow> Todo result" where
  "getTodo_try d i =
     (case sql_select_todo_by_id d i of
        None \<Rightarrow> Inl (Thrown (Some 404) ''Todo not found'')
      | Some todo \<Rightarrow> Inr (None, todo))"

definition getTodo :: "Database \<Rightarrow> int \<Rightarrow> Todo result" where
  "getTodo d i =
     (case getTodo_try d i of
        Inl e \<Rightarrow> Inl (catch_keep 404 ''Failed to retrieve todo'' e)
      | Inr r \<Rightarrow> Inr r)"

text \<open>
  \<open>SELECT * FROM todos WHERE user_id = ?1 [AND completed = ?2] ORDER BY created_at DESC\<close>,
  with no look at the \<open>users\<close> table.
\<close>

definition getUserTodos :: "Database \<Rightarrow> int \<Rightarrow> bool option \<Rightarrow> Todo list result" where
  "getUserTodos d userId completed = Inr (None, sql_select_todos_ordered d (Some userId) completed)"

text \<open>\<open>body.description || null\<close>: \<open>undefined\<close> and the empty string are falsy.\<close>

definition or_null :: "string option \<Rightarrow> string option" where
  "or_null x = (case x of None \<Rightarrow> None | Some s \<Rightarrow> if s = [] then None else Some s)"

definition createTodo_try :: "Database \<Rightarrow> CreateTodoRequest \<Rightarrow> nat \<Rightarrow> Todo result \<times> Database" where
  "createTodo_try d body now =
     (case sql_select_user_by_id d (ct_user_id body) of
        None \<Rightarrow> (Inl (Thrown (Some 400) ''User not found''), d)
      | Some user \<Rightarrow>
          (case sql_insert_todo d (ct_user_id body) (ct_title body) (or_null (ct_description body)) now of
             Inl msg \<Rightarrow> (Inl (Thrown None msg), d)
           | Inr (rowid, d') \<Rightarrow>
               (case sql_select_todo_by_id d' rowid of
                  None \<Rightarrow> (Inl (Thrown (Some 500) ''Failed to create todo''), d')
                | Some todo \<Rightarrow> (Inr (Some 201, todo), d'))))"

definition createTodo :: "Database \<Rightarrow> CreateTodoRequest \<Rightarrow> nat \<Rightarrow> Todo result \<times> Database" where
  "createTodo d body now =
     (case createTodo_try d body now of
        (Inl e, d') \<Rightarrow> (Inl (catch_keep 400 ''Failed to create todo'' e), d')
      | (Inr r, d') \<Rightarrow> (Inr r, d'))"

definition updateTodo_try ::
  "Database \<Rightarrow> int \<Rightarrow> UpdateTodoRequest \<Rightarrow> nat \<Rightarrow> Todo result \<times> Database" where
  "updateTodo_try d i body now =
     (case sql_select_todo_by_id d i of
        None \<Rightarrow> (Inl (Thrown (Some 404) ''Todo not found''), d)
      | Some existingTodo \<Rightarrow>
          (let updates = (case ut_title body of None \<Rightarrow> [] | Some s \<Rightarrow> [SetTitle s]) @
                         (case ut_description body of None \<Rightarrow> [] | Some s \<Rightarrow> [SetDescription s]) @
                         (case ut_completed body of None \<Rightarrow> [] | Some b \<Rightarrow> [SetCompleted b])
           in if length updates = 0 then (Inr (None, existingTodo), d)
              else (let d' = sql_update_todo d (updates @ [SetUpdatedAtNow]) i now
                    in case sql_select_todo_by_id d' i of
                         None \<Rightarrow> (Inl (Thrown (Some 500) ''Failed to update todo''), d')
                       | Some todo \<Rightarrow> (Inr (None, todo), d'))))"

definition updateTodo ::
  "Database \<Rightarrow> int \<Rightarrow> UpdateTodoRequest \<Rightarrow> nat \<Rightarrow> Todo result \<times> Database" where
  "updateTodo d i body now =
     (case updateTodo_try d i body now of
        (Inl e, d') \<Rightarrow> (Inl (catch_keep 404 ''Failed to update todo'' e), d')
      | (Inr r, d') \<Rightarrow> (Inr r, d'))"

definition deleteTodo_try :: "Database \<Rightarrow> int \<Rightarrow> unit result \<times> Database" where
  "deleteTodo_try d i =
     (case sql_select_todo_by_id d i of
        None \<Rightarrow> (Inl (Thrown (Some 404) ''Todo not found''), d)
      | Some todo \<Rightarrow> (Inr (Some 204, ()), sql_delete_todo d i))"

definition deleteTodo :: "Database \<Rightarrow> int \<Rightarrow> unit result \<times> Database" where
  "deleteTodo d i =
     (case deleteTodo_try d i of
        (Inl e, d') \<Rightarrow> (Inl (catch_keep 404 ''Failed to delete todo'' e), d')
      | (Inr r, d') \<Rightarrow> (Inr r, d'))"


section \<open>Request sequences, example states and state predicates\<close>

text \<open>
  A client's first requests on a fresh database: POST /users for Ann at time 1,
  POST /todos for her at time 2, DELETE /users/1.
\<close>

definition ex_ann_req :: CreateUserRequest where
  "ex_ann_req = \<lparr>cu_name = ''Ann'', cu_email = ''ann@x.com''\<rparr>"

definition ex_ann :: User where
  "ex_ann = \<lparr>u_id = 1, u_name = ''Ann'', u_email = ''ann@x.com'', u_created_at = 1\<rparr>"

definition ex_milk_req :: CreateTodoRequest where
  "ex_milk_req = \<lparr>ct_user_id = 1, ct_title = ''Buy milk'', ct_description = None\<rparr>"

definition ex_milk :: Todo where
  "ex_milk = \<lparr>t_id = 1, t_user_id = 1, t_title = ''Buy milk'', t_description = None,
               t_completed = False, t_created_at = 2, t_updated_at = 2\<rparr>"

definition ex_db1 :: Database where
  "ex_db1 = snd (createUser db_init ex_ann_req 1)"

definition ex_db2 :: Database where
  "ex_db2 = snd (createTodo ex_db1 ex_milk_req 2)"

definition ex_db3 :: Database where
  "ex_db3 = snd (deleteUser ex_db2 1)"

text \<open>
  A client sending a sequence of PUT /todos/{id} requests, each with its id, its body and
  the time at which its statement runs; the responses are dropped, the storage is threaded
  through.
\<close>

fun updateTodo_all :: "Database \<Rightarrow> (int \<times> UpdateTodoRequest \<times> nat) list \<Rightarrow> Database" where
  "updateTodo_all d [] = d"
| "updateTodo_all d ((i, body, now) # rs) = updateTodo_all (snd (updateTodo d i body now)) rs"

text \<open>
  The todo after PUT /todos/1 {"completed": true} at time 3.
\<close>

definition ex_milk_done :: Todo where
  "ex_milk_done = \<lparr>t_id = 1, t_user_id = 1, t_title = ''Buy milk'', t_description = None,
               t_completed = True, t_created_at = 2, t_updated_at = 3\<rparr>"

text \<open>
  Two further requests on that todo, and the row they leave.
\<close>

definition ex_updates :: "(int \<times> UpdateTodoRequest \<times> nat) list" where
  "ex_updates =
     [(1, \<lparr>ut_title = None, ut_description = None, ut_completed = Some True\<rparr>, 3),
      (1, \<lparr>ut_title = Some ''Buy oat milk'', ut_description = Some ''2 l'', ut_completed = None\<rparr>, 4)]"

definition ex_oat_milk :: Todo where
  "ex_oat_milk = \<lparr>t_id = 1, t_user_id = 1, t_title = ''Buy oat milk'', t_description = Some ''2 l'',
               t_completed = True, t_created_at = 2, t_updated_at = 4\<rparr>"

text \<open>
  Five users, two of them created in the same second, and the storage holding them.
\<close>

definition ex_u1 :: User where
  "ex_u1 = \<lparr>u_id = 1, u_name = ''Ann'', u_email = ''ann@x.com'', u_created_at = 10\<rparr>"

definition ex_u2 :: User where
  "ex_u2 = \<lparr>u_id = 2, u_name = ''Bob'', u_email = ''bob@x.com'', u_created_at = 20\<rparr>"

definition ex_u3 :: User where
  "ex_u3 = \<lparr>u_id = 3, u_name = ''Cy'', u_email = ''cy@x.com'', u_created_at = 20\<rparr>"

definition ex_u4 :: User where
  "ex_u4 = \<lparr>u_id = 4, u_name = ''Di'', u_email = ''di@x.com'', u_created_at = 30\<rparr>"

definition ex_u5 :: User where
  "ex_u5 = \<lparr>u_id = 5, u_name = ''Ed'', u_email = ''ed@x.com'', u_created_at = 40\<rparr>"

definition ex_db5 :: Database where
  "ex_db5 = \<lparr>foreign_keys = False, users = [ex_u1, ex_u2, ex_u3, ex_u4, ex_u5], users_seq = 5,
             todos = [], todos_seq = 0\<rparr>"

text \<open>
  Referential integrity: every todo's \<open>user_id\<close> is the id of a stored user.
\<close>

definition ref_ok :: "Database \<Rightarrow> bool" where
  "ref_ok d = list_all (\<lambda>t. list_ex (\<lambda>u. u_id u = t_user_id t) (users d)) (todos d)"

text \<open>
  The states a client can bring the storage to from a state \<open>d0\<close>: any sequence of the six
  handlers that write, with any arguments.
\<close>

inductive reach :: "Database \<Rightarrow> Database \<Rightarrow> bool" for d0 :: Database where
  reach_start: "reach d0 d0"
| reach_createUser: "reach d0 d \<Longrightarrow> reach d0 (snd (createUser d ub now))"
| reach_updateUser: "reach d0 d \<Longrightarrow> reach d0 (snd (updateUser d i uu))"
| reach_deleteUser: "reach d0 d \<Longrightarrow> reach d0 (snd (deleteUser d i))"
| reach_createTodo: "reach d0 d \<Longrightarrow> reach d0 (snd (createTodo d tb now))"
| reach_updateTodo: "reach d0 d \<Longrightarrow> reach d0 (snd (updateTodo d i ut now))"
| reach_deleteTodo: "reach d0 d \<Longrightarrow> reach d0 (snd (deleteTodo d i))"

text \<open>
  The states reached from the fresh storage while the clock does not go back:
  \<open>clock_run c d\<close> holds when \<open>d\<close> is reached by handlers whose statements ran at
  non-decreasing times, none later than \<open>c\<close>.
\<close>

inductive clock_run :: "nat \<Rightarrow> Database \<Rightarrow> bool" where
  clock_start: "clock_run 0 db_init"
| clock_tick: "clock_run c d \<Longrightarrow> c \<le> c' \<Longrightarrow> clock_run c' d"
| clock_createUser: "clock_run c d \<Longrightarrow> clock_run c (snd (createUser d ub c))"
| clock_updateUser: "clock_run c d \<Longrightarrow> clock_run c (snd (updateUser d i uu))"
| clock_deleteUser: "clock_run c d \<Longrightarrow> clock_run c (snd (deleteUser d i))"
| clock_createTodo: "clock_run c d \<Longrightarrow> clock_run c (snd (createTodo d tb c))"
| clock_updateTodo: "clock_run c d \<Longrightarrow> clock_run c (snd (updateTodo d i ut c))"
| clock_deleteTodo: "clock_run c d \<Longrightarrow> clock_run c (snd (deleteTodo d i))"


section \<open>Facts about the statements\<close>

lemma fold_max_ge_seq: "(seq::int) \<le> fold max ids seq"
proof (induction ids arbitrary: seq)
  case Nil
  then show ?case by simp
next
  case (Cons a ids)
  have "seq \<le> max a seq" by simp
  also have "\<dots> \<le> fold max ids (max a seq)" by (rule Cons.IH)
  finally show ?case by simp
qed

lemma fold_max_ge_elem: "i \<in> set ids \<Longrightarrow> (i::int) \<le> fold max ids seq"
proof (induction ids arbitrary: seq)
  case Nil
  then show ?case by simp
next
  case (Cons a ids)
  show ?case
  proof (cases "i = a")
    case True
    have "max a seq \<le> fold max ids (max a seq)" by (rule fold_max_ge_seq)
    with True show ?thesis by simp
  next
    case False
    with Cons show ?thesis by simp
  qed
qed

lemma next_rowid_fresh: "i \<in> set ids \<Longrightarrow> i < next_rowid seq ids"
  using fold_max_ge_elem[of i ids seq] by (simp add: next_rowid_def)

lemma find_append_fresh: "\<forall>x\<in>set xs. \<not> P x \<Longrightarrow> P y \<Longrightarrow> find P (xs @ [y]) = Some y"
  by (induction xs) auto

lemma unique_message_includes:
  "str_includes ''UNIQUE constraint failed: users.email'' ''UNIQUE constraint''"
  by simp

lemma fk_message_excludes:
  "\<not> str_includes ''FOREIGN KEY constraint failed'' ''UNIQUE constraint''"
  by simp

lemma createUser_conflict:
  assumes "list_ex (\<lambda>u. u_email u = cu_email body) (users d)"
  shows "createUser d body now = (Inl (Thrown (Some 400) ''Email already exists''), d)"
  using assms by (simp add: createUser_def createUser_try_def sql_insert_user_def catch_unique_def)

lemma createUser_success:
  assumes "\<not> list_ex (\<lambda>u. u_email u = cu_email body) (users d)"
  shows "createUser d body now =
     (Inr (Some 201, \<lparr>u_id = next_rowid (users_seq d) (map u_id (users d)), u_name = cu_name body,
                      u_email = cu_email body, u_created_at = now\<rparr>),
      d\<lparr>users := users d @ [\<lparr>u_id = next_rowid (users_seq d) (map u_id (users d)), u_name = cu_name body,
                      u_email = cu_email body, u_created_at = now\<rparr>],
        users_seq := next_rowid (users_seq d) (map u_id (users d))\<rparr>)"
proof -
  let ?i = "next_rowid (users_seq d) (map u_id (users d))"
  have "\<forall>x\<in>set (users d). \<not> u_id x = ?i"
    using next_rowid_fresh[of _ "map u_id (users d)" "users_seq d"] by fastforce
  then have "find (\<lambda>u. u_id u = ?i) (users d @ [\<lparr>u_id = ?i, u_name = cu_name body,
                      u_email = cu_email body, u_created_at = now\<rparr>]) = Some \<lparr>u_id = ?i, u_name = cu_name body,
                      u_email = cu_email body, u_created_at = now\<rparr>"
    by (intro find_append_fresh) auto
  with assms show ?thesis
    by (simp add: createUser_def createUser_try_def sql_insert_user_def Let_def sql_select_user_by_id_def)
qed

lemma createTodo_no_user:
  assumes "sql_select_user_by_id d (ct_user_id body) = None"
  shows "createTodo d body now = (Inl (Thrown (Some 400) ''User not found''), d)"
  using assms by (simp add: createTodo_def createTodo_try_def catch_keep_def)

lemma select_user_Some_ex:
  "sql_select_user_by_id d i = Some u \<Longrightarrow> list_ex (\<lambda>u. u_id u = i) (users d)"
  by (auto simp: sql_select_user_by_id_def list_ex_iff find_Some_iff)

lemma createTodo_success:
  assumes "sql_select_user_by_id d (ct_user_id body) = Some u"
  shows "createTodo d body now =
     (Inr (Some 201, \<lparr>t_id = next_rowid (todos_seq d) (map t_id (todos d)), t_user_id = ct_user_id body,
                      t_title = ct_title body, t_description = or_null (ct_description body),
                      t_completed = False, t_created_at = now, t_updated_at = now\<rparr>),
      d\<lparr>todos := todos d @ [\<lparr>t_id = next_rowid (todos_seq d) (map t_id (todos d)), t_user_id = ct_user_id body,
                      t_title = ct_title body, t_description = or_null (ct_description body),
                      t_completed = False, t_created_at = now, t_updated_at = now\<rparr>],
        todos_seq := next_rowid (todos_seq d) (map t_id (todos d))\<rparr>)"
proof -
  let ?i = "next_rowid (todos_seq d) (map t_id (todos d))"
  let ?t = "\<lparr>t_id = ?i, t_user_id = ct_user_id body,
                      t_title = ct_title body, t_description = or_null (ct_description body),
                      t_completed = False, t_created_at = now, t_updated_at = now\<rparr>"
  have "\<forall>x\<in>set (todos d). \<not> t_id x = ?i"
    using next_rowid_fresh[of _ "map t_id (todos d)" "todos_seq d"] by fastforce
  then have "find (\<lambda>t. t_id t = ?i) (todos d @ [?t]) = Some ?t"
    by (intro find_append_fresh) auto
  with assms select_user_Some_ex[OF assms] show ?thesis
    by (simp add: createTodo_def createTodo_try_def sql_insert_todo_def Let_def sql_select_todo_by_id_def)
qed

lemma ex_db1_eq:
  "ex_db1 = \<lparr>foreign_keys = False, users = [ex_ann], users_seq = 1, todos = [], todos_seq = 0\<rparr>"
  by (simp add: ex_db1_def createUser_def createUser_try_def sql_insert_user_def db_init_def
      ex_ann_req_def ex_ann_def next_rowid_def sql_select_user_by_id_def)

lemma ex_db2_eq:
  "ex_db2 = \<lparr>foreign_keys = False, users = [ex_ann], users_seq = 1, todos = [ex_milk], todos_seq = 1\<rparr>"
  by (simp add: ex_db2_def ex_db1_eq createTodo_def createTodo_try_def sql_insert_todo_def
      ex_milk_req_def ex_milk_def ex_ann_def next_rowid_def sql_select_user_by_id_def
      sql_select_todo_by_id_def or_null_def)

lemma ex_db3_eq:
  "ex_db3 = \<lparr>foreign_keys = False, users = [], users_seq = 1, todos = [ex_milk], todos_seq = 1\<rparr>"
  by (simp add: ex_db3_def ex_db2_eq deleteUser_def deleteUser_try_def sql_delete_user_def
      ex_ann_def sql_select_user_by_id_def)


section \<open>Creating users and todos\<close>

text \<open>
  Claim C2. If a user with email \<open>e\<close> is stored, then createUser with any name and the
  email \<open>e\<close> throws with status 400 and the message of the duplicate email, the storage is
  left as it was, and getUser still returns that user with every field as before.
\<close>

theorem createUser_duplicate_email_conflict:
  assumes "sql_select_user_by_id d i = Some u" and "u_email u = e"
  shows "createUser d \<lparr>cu_name = n, cu_email = e\<rparr> now =
           (Inl (Thrown (Some 400) ''Email already exists''), d)
       \<and> getUser (snd (createUser d \<lparr>cu_name = n, cu_email = e\<rparr> now)) i = Inr (None, u)"
proof -
  from assms(1) have mem: "u \<in> set (users d)"
    by (auto simp: sql_select_user_by_id_def find_Some_iff)
  with assms(2) have "list_ex (\<lambda>v. u_email v = cu_email \<lparr>cu_name = n, cu_email = e\<rparr>) (users d)"
    by (auto simp: list_ex_iff)
  then have c: "createUser d \<lparr>cu_name = n, cu_email = e\<rparr> now =
           (Inl (Thrown (Some 400) ''Email already exists''), d)"
    by (rule createUser_conflict)
  have "getUser d i = Inr (None, u)"
    using assms(1) by (simp add: getUser_def getUser_try_def)
  with c show ?thesis by simp
qed

theorem createUser_duplicate_email_conflict_witness:
  "sql_select_user_by_id ex_db1 1 = Some ex_ann \<and> u_email ex_ann = ''ann@x.com''
   \<and> createUser ex_db1 \<lparr>cu_name = ''Bob'', cu_email = ''ann@x.com''\<rparr> 5 =
           (Inl (Thrown (Some 400) ''Email already exists''), ex_db1)
   \<and> getUser (snd (createUser ex_db1 \<lparr>cu_name = ''Bob'', cu_email = ''ann@x.com''\<rparr> 5)) 1 =
           Inr (None, ex_ann)"
proof -
  have h1: "sql_select_user_by_id ex_db1 1 = Some ex_ann"
    by (simp add: ex_db1_eq sql_select_user_by_id_def ex_ann_def)
  have h2: "u_email ex_ann = ''ann@x.com''"
    by (simp add: ex_ann_def)
  from h1 h2 createUser_duplicate_email_conflict [OF h1 h2, of "''Bob''" 5]
  show ?thesis by blast
qed



lemma createUser_Inr_no_conflict:
  assumes "createUser d body now = (Inr (st, u), d')"
  shows "\<not> list_ex (\<lambda>u. u_email u = cu_email body) (users d)"
proof
  assume "list_ex (\<lambda>u. u_email u = cu_email body) (users d)"
  from createUser_conflict[OF this, of now] assms show False by simp
qed

lemma select_user_append_fresh:
  assumes "u_id u = next_rowid seq (map u_id (users d))"
  shows "sql_select_user_by_id (d\<lparr>users := users d @ [u], users_seq := k\<rparr>) (u_id u) = Some u"
proof -
  have "\<forall>x\<in>set (users d). \<not> u_id x = u_id u"
    using assms next_rowid_fresh[of _ "map u_id (users d)" seq] by fastforce
  then show ?thesis
    by (simp add: sql_select_user_by_id_def find_append_fresh)
qed

lemma select_todo_append_fresh:
  assumes "t_id t = next_rowid seq (map t_id (todos d))"
  shows "sql_select_todo_by_id (d\<lparr>todos := todos d @ [t], todos_seq := k\<rparr>) (t_id t) = Some t"
proof -
  have "\<forall>x\<in>set (todos d). \<not> t_id x = t_id t"
    using assms next_rowid_fresh[of _ "map t_id (todos d)" seq] by fastforce
  then show ?thesis
    by (simp add: sql_select_todo_by_id_def find_append_fresh)
qed

lemma createTodo_Inr_user:
  assumes "createTodo d body now = (Inr (st, t), d')"
  shows "\<exists>u. sql_select_user_by_id d (ct_user_id body) = Some u"
proof (cases "sql_select_user_by_id d (ct_user_id body)")
  case None
  from createTodo_no_user[OF None, of now] assms show ?thesis by simp
next
  case (Some u)
  then show ?thesis by blast
qed

lemma ex_createUser_ann:
  "createUser db_init \<lparr>cu_name = ''Ann'', cu_email = ''ann@x.com''\<rparr> 1
      = (Inr (Some 201, ex_ann), ex_db1)"
  by (simp add: ex_db1_eq createUser_def createUser_try_def sql_insert_user_def db_init_def
      ex_ann_def next_rowid_def sql_select_user_by_id_def)

lemma ex_createTodo_milk:
  "createTodo ex_db1 \<lparr>ct_user_id = 1, ct_title = ''Buy milk'', ct_description = None\<rparr> 2
        = (Inr (Some 201, ex_milk), ex_db2)"
  by (simp add: ex_db2_eq ex_db1_eq createTodo_def createTodo_try_def sql_insert_todo_def
      ex_milk_def ex_ann_def next_rowid_def sql_select_user_by_id_def
      sql_select_todo_by_id_def or_null_def)

text \<open>
  Claim C7, as amended. Neither create operation looks at the length of the name or the
  title: whenever createUser succeeds, the row it appends to \<open>users\<close> and returns has the
  name of the request unchanged, and whenever createTodo succeeds, the row it appends to
  \<open>todos\<close> and returns has the title of the request unchanged. The stored name or title is
  therefore non-empty exactly when the request's is.
\<close>

theorem create_stores_name_and_title_verbatim:
  "(createUser d ub now = (Inr (st, u), d') \<longrightarrow>
      u_name u = cu_name ub \<and> users d' = users d @ [u]
      \<and> sql_select_user_by_id d' (u_id u) = Some u)
   \<and> (createTodo e tb now' = (Inr (st', t), e') \<longrightarrow>
      t_title t = ct_title tb \<and> todos e' = todos e @ [t]
      \<and> sql_select_todo_by_id e' (t_id t) = Some t)"
proof (intro conjI impI)
  assume a: "createUser d ub now = (Inr (st, u), d')"
  note s = createUser_success[OF createUser_Inr_no_conflict[OF a], of now]
  from a s show "u_name u = cu_name ub" by auto
  from a s show "users d' = users d @ [u]" by auto
  from a s select_user_append_fresh[of _ "users_seq d" d]
  show "sql_select_user_by_id d' (u_id u) = Some u" by auto
next
  assume a: "createTodo e tb now' = (Inr (st', t), e')"
  from createTodo_Inr_user[OF a] obtain w where w: "sql_select_user_by_id e (ct_user_id tb) = Some w" ..
  note s = createTodo_success[OF w, of now']
  from a s show "t_title t = ct_title tb" by auto
  from a s show "todos e' = todos e @ [t]" by auto
  from a s select_todo_append_fresh[of _ "todos_seq e" e]
  show "sql_select_todo_by_id e' (t_id t) = Some t" by auto
qed

theorem create_stores_name_and_title_verbatim_witness:
  "createUser db_init \<lparr>cu_name = ''Ann'', cu_email = ''ann@x.com''\<rparr> 1 = (Inr (Some 201, ex_ann), ex_db1)
   \<and> u_name ex_ann = ''Ann'' \<and> users ex_db1 = users db_init @ [ex_ann]
   \<and> sql_select_user_by_id ex_db1 (u_id ex_ann) = Some ex_ann
   \<and> createTodo ex_db1 \<lparr>ct_user_id = 1, ct_title = ''Buy milk'', ct_description = None\<rparr> 2
        = (Inr (Some 201, ex_milk), ex_db2)
   \<and> t_title ex_milk = ''Buy milk'' \<and> todos ex_db2 = todos ex_db1 @ [ex_milk]
   \<and> sql_select_todo_by_id ex_db2 (t_id ex_milk) = Some ex_milk"
proof -
  from ex_createUser_ann ex_createTodo_milk create_stores_name_and_title_verbatim
     [of db_init "\<lparr>cu_name = ''Ann'', cu_email = ''ann@x.com''\<rparr>" 1 "Some 201" ex_ann ex_db1
         ex_db1 "\<lparr>ct_user_id = 1, ct_title = ''Buy milk'', ct_description = None\<rparr>" 2 "Some 201" ex_milk ex_db2]
  show ?thesis by simp
qed

text \<open>
  Claim C7, as stated, fails: on the fresh database createUser with the empty name
  succeeds with 201 and stores a user whose name is the empty string, and createTodo with
  the empty title stores a todo whose title is the empty string.
\<close>

theorem create_accepts_empty_name_and_title:
  "createUser db_init \<lparr>cu_name = '''', cu_email = ''ann@x.com''\<rparr> 1 =
     (Inr (Some 201, \<lparr>u_id = 1, u_name = '''', u_email = ''ann@x.com'', u_created_at = 1\<rparr>),
      \<lparr>foreign_keys = False,
       users = [\<lparr>u_id = 1, u_name = '''', u_email = ''ann@x.com'', u_created_at = 1\<rparr>],
       users_seq = 1, todos = [], todos_seq = 0\<rparr>)
   \<and> createTodo ex_db1 \<lparr>ct_user_id = 1, ct_title = '''', ct_description = None\<rparr> 2 =
     (Inr (Some 201, \<lparr>t_id = 1, t_user_id = 1, t_title = '''', t_description = None,
               t_completed = False, t_created_at = 2, t_updated_at = 2\<rparr>),
      \<lparr>foreign_keys = False, users = [ex_ann], users_seq = 1,
       todos = [\<lparr>t_id = 1, t_user_id = 1, t_title = '''', t_description = None,
               t_completed = False, t_created_at = 2, t_updated_at = 2\<rparr>], todos_seq = 1\<rparr>)"
  by (simp add: ex_db1_eq createUser_def createUser_try_def sql_insert_user_def db_init_def
      ex_ann_def next_rowid_def sql_select_user_by_id_def createTodo_def createTodo_try_def
      sql_insert_todo_def sql_select_todo_by_id_def or_null_def)

text \<open>
  Claim C10. For a request whose user exists, createTodo stores and returns a todo with no
  description when the request's description is absent or the empty string, and with the
  request's description unchanged when it is a non-empty string.
\<close>

theorem createTodo_falsy_description_is_null:
  assumes "sql_select_user_by_id d (ct_user_id body) = Some u"
  shows "\<exists>t d'. createTodo d body now = (Inr (Some 201, t), d')
            \<and> sql_select_todo_by_id d' (t_id t) = Some t
            \<and> (ct_description body = None \<longrightarrow> t_description t = None)
            \<and> (ct_description body = Some '''' \<longrightarrow> t_description t = None)
            \<and> (\<forall>s. ct_description body = Some s \<and> s \<noteq> '''' \<longrightarrow> t_description t = Some s)"
  using select_todo_append_fresh[of _ "todos_seq d" d]
  by (simp add: createTodo_success[OF assms] or_null_def)

theorem createTodo_falsy_description_is_null_witness:
  "sql_select_user_by_id ex_db1 1 = Some ex_ann
   \<and> (\<exists>t d'. createTodo ex_db1 \<lparr>ct_user_id = 1, ct_title = ''Buy milk'', ct_description = Some ''''\<rparr> 2
                 = (Inr (Some 201, t), d')
            \<and> sql_select_todo_by_id d' (t_id t) = Some t \<and> t_description t = None)
   \<and> (\<exists>t d'. createTodo ex_db1 \<lparr>ct_user_id = 1, ct_title = ''Buy milk'', ct_description = Some ''2 l''\<rparr> 2
                 = (Inr (Some 201, t), d')
            \<and> sql_select_todo_by_id d' (t_id t) = Some t \<and> t_description t = Some ''2 l'')"
proof -
  have h: "sql_select_user_by_id ex_db1 1 = Some ex_ann"
    by (simp add: ex_db1_eq sql_select_user_by_id_def ex_ann_def)
  have h1: "sql_select_user_by_id ex_db1
      (ct_user_id \<lparr>ct_user_id = 1, ct_title = ''Buy milk'', ct_description = Some ''''\<rparr>) = Some ex_ann"
    using h by simp
  have h2: "sql_select_user_by_id ex_db1
      (ct_user_id \<lparr>ct_user_id = 1, ct_title = ''Buy milk'', ct_description = Some ''2 l''\<rparr>) = Some ex_ann"
    using h by simp
  from createTodo_falsy_description_is_null [OF h1, of 2]
  have a: "\<exists>t d'. createTodo ex_db1 \<lparr>ct_user_id = 1, ct_title = ''Buy milk'', ct_description = Some ''''\<rparr> 2
                 = (Inr (Some 201, t), d')
            \<and> sql_select_todo_by_id d' (t_id t) = Some t \<and> t_description t = None"
    by simp
  from createTodo_falsy_description_is_null [OF h2, of 2]
  have b: "\<exists>t d'. createTodo ex_db1 \<lparr>ct_user_id = 1, ct_title = ''Buy milk'', ct_description = Some ''2 l''\<rparr> 2
                 = (Inr (Some 201, t), d')
            \<and> sql_select_todo_by_id d' (t_id t) = Some t \<and> t_description t = Some ''2 l''"
    by simp
  from h a b show ?thesis by blast
qed


section \<open>Updating users and todos\<close>

lemma fold_todo_assign_id: "t_id (fold (apply_todo_assign now) as t) = t_id t"
proof (induction as arbitrary: t)
  case Nil
  then show ?case by simp
next
  case (Cons a as)
  then show ?case by (cases a) simp_all
qed

lemma fold_todo_assign_user_id: "t_user_id (fold (apply_todo_assign now) as t) = t_user_id t"
proof (induction as arbitrary: t)
  case Nil
  then show ?case by simp
next
  case (Cons a as)
  then show ?case by (cases a) simp_all
qed

lemma find_map_update:
  assumes "find (\<lambda>t. t_id t = i) xs = Some t" and "t_id (f t) = i"
  shows "find (\<lambda>t. t_id t = i) (map (\<lambda>t. if t_id t = i then f t else t) xs) = Some (f t)"
  using assms by (induction xs) (auto split: if_splits)

lemma find_map_other:
  assumes "j \<noteq> i" and "\<And>x. t_id (f x) = t_id x"
  shows "find (\<lambda>t. t_id t = j) (map (\<lambda>t. if t_id t = i then f t else t) xs)
       = find (\<lambda>t. t_id t = j) xs"
  using assms by (induction xs) auto

lemma select_after_update_todo:
  assumes "sql_select_todo_by_id d i = Some t"
  shows "sql_select_todo_by_id (sql_update_todo d as i now) i
       = Some (fold (apply_todo_assign now) as t)"
proof -
  from assms have "t_id t = i"
    by (auto simp: sql_select_todo_by_id_def find_Some_iff)
  then have "t_id (fold (apply_todo_assign now) as t) = i"
    by (simp add: fold_todo_assign_id)
  with assms show ?thesis
    by (simp add: sql_select_todo_by_id_def sql_update_todo_def find_map_update)
qed

lemma select_other_after_update_todo:
  "j \<noteq> i \<Longrightarrow> sql_select_todo_by_id (sql_update_todo d as i now) j = sql_select_todo_by_id d j"
  by (simp add: sql_select_todo_by_id_def sql_update_todo_def find_map_other fold_todo_assign_id)

lemma updateTodo_not_found:
  "sql_select_todo_by_id d i = None \<Longrightarrow>
   updateTodo d i body now = (Inl (Thrown (Some 404) ''Todo not found''), d)"
  by (simp add: updateTodo_def updateTodo_try_def catch_keep_def)

lemma updateTodo_noop:
  "sql_select_todo_by_id d i = Some t \<Longrightarrow>
   updateTodo d i \<lparr>ut_title = None, ut_description = None, ut_completed = None\<rparr> now
     = (Inr (None, t), d)"
  by (simp add: updateTodo_def updateTodo_try_def)

lemma updateTodo_write:
  assumes "sql_select_todo_by_id d i = Some t"
      and "ut_title body \<noteq> None \<or> ut_description body \<noteq> None \<or> ut_completed body \<noteq> None"
  shows "updateTodo d i body now =
    (Inr (None, fold (apply_todo_assign now)
                  ((case ut_title body of None \<Rightarrow> [] | Some s \<Rightarrow> [SetTitle s]) @
                   (case ut_description body of None \<Rightarrow> [] | Some s \<Rightarrow> [SetDescription s]) @
                   (case ut_completed body of None \<Rightarrow> [] | Some b \<Rightarrow> [SetCompleted b]) @
                   [SetUpdatedAtNow]) t),
     sql_update_todo d
       ((case ut_title body of None \<Rightarrow> [] | Some s \<Rightarrow> [SetTitle s]) @
        (case ut_description body of None \<Rightarrow> [] | Some s \<Rightarrow> [SetDescription s]) @
        (case ut_completed body of None \<Rightarrow> [] | Some b \<Rightarrow> [SetCompleted b]) @
        [SetUpdatedAtNow]) i now)"
proof -
  let ?ups = "(case ut_title body of None \<Rightarrow> [] | Some s \<Rightarrow> [SetTitle s]) @
              (case ut_description body of None \<Rightarrow> [] | Some s \<Rightarrow> [SetDescription s]) @
              (case ut_completed body of None \<Rightarrow> [] | Some b \<Rightarrow> [SetCompleted b])"
  from assms(2) have ne: "?ups \<noteq> []"
    by (auto split: option.splits)
  have sel: "sql_select_todo_by_id (sql_update_todo d (?ups @ [SetUpdatedAtNow]) i now) i
       = Some (fold (apply_todo_assign now) (?ups @ [SetUpdatedAtNow]) t)"
    by (rule select_after_update_todo[OF assms(1)])
  show ?thesis
    using assms(1) ne sel
    by (auto simp add: updateTodo_def updateTodo_try_def Let_def simp del: fold_append)
qed

text \<open>
  Claim C4. For a stored user, updateUser with neither \<open>name\<close> nor \<open>email\<close> returns the
  stored user and leaves the storage as it was; for a stored todo, updateTodo with none of
  \<open>title\<close>, \<open>description\<close>, \<open>completed\<close> returns the stored todo and leaves the storage as it
  was, so no field of it, \<open>updated_at\<close> included, is written.
\<close>

theorem update_without_fields_is_noop:
  "(sql_select_user_by_id d i = Some u \<longrightarrow>
      updateUser d i \<lparr>uu_name = None, uu_email = None\<rparr> = (Inr (None, u), d))
   \<and> (sql_select_todo_by_id e j = Some t \<longrightarrow>
      updateTodo e j \<lparr>ut_title = None, ut_description = None, ut_completed = None\<rparr> now
        = (Inr (None, t), e))"
proof (intro conjI impI)
  assume found: "sql_select_user_by_id d i = Some u"
  have "updateUser_try d i \<lparr>uu_name = None, uu_email = None\<rparr> = (Inr (None, u), d)"
    using found by (simp add: updateUser_try_def)
  then show "updateUser d i \<lparr>uu_name = None, uu_email = None\<rparr> = (Inr (None, u), d)"
    by (simp add: updateUser_def)
next
  assume found: "sql_select_todo_by_id e j = Some t"
  then show "updateTodo e j \<lparr>ut_title = None, ut_description = None, ut_completed = None\<rparr> now
        = (Inr (None, t), e)"
    by (rule updateTodo_noop)
qed

theorem update_without_fields_is_noop_witness:
  "sql_select_user_by_id ex_db2 1 = Some ex_ann
   \<and> updateUser ex_db2 1 \<lparr>uu_name = None, uu_email = None\<rparr> = (Inr (None, ex_ann), ex_db2)
   \<and> sql_select_todo_by_id ex_db2 1 = Some ex_milk
   \<and> updateTodo ex_db2 1 \<lparr>ut_title = None, ut_description = None, ut_completed = None\<rparr> 9
        = (Inr (None, ex_milk), ex_db2)"
proof -
  have h1: "sql_select_user_by_id ex_db2 1 = Some ex_ann"
    by (simp add: ex_db2_eq sql_select_user_by_id_def ex_ann_def)
  have h2: "sql_select_todo_by_id ex_db2 1 = Some ex_milk"
    by (simp add: ex_db2_eq sql_select_todo_by_id_def ex_milk_def)
  from h1 h2 update_without_fields_is_noop [of ex_db2 1 ex_ann ex_db2 1 ex_milk 9]
  show ?thesis by blast
qed

lemma updateTodo_noop_gen:
  assumes "sql_select_todo_by_id d i = Some t"
      and "ut_title body = None" "ut_description body = None" "ut_completed body = None"
  shows "updateTodo d i body now = (Inr (None, t), d)"
  using assms by (simp add: updateTodo_def updateTodo_try_def)

lemma todos_update_keys:
  "map (\<lambda>t. (t_id t, t_user_id t)) (todos (sql_update_todo d as i now))
     = map (\<lambda>t. (t_id t, t_user_id t)) (todos d)"
  by (simp add: sql_update_todo_def fold_todo_assign_id fold_todo_assign_user_id)

lemma updateTodo_keys:
  "map (\<lambda>t. (t_id t, t_user_id t)) (todos (snd (updateTodo d i body now)))
     = map (\<lambda>t. (t_id t, t_user_id t)) (todos d)"
proof (cases "sql_select_todo_by_id d i")
  case None
  then show ?thesis by (simp add: updateTodo_not_found)
next
  case (Some t)
  show ?thesis
  proof (cases "ut_title body \<noteq> None \<or> ut_description body \<noteq> None \<or> ut_completed body \<noteq> None")
    case True
    show ?thesis
      by (simp only: updateTodo_write[OF Some True] snd_conv todos_update_keys)
  next
    case False
    then show ?thesis
      by (simp add: updateTodo_noop_gen[OF Some])
  qed
qed

lemma updateTodo_all_keys:
  "map (\<lambda>t. (t_id t, t_user_id t)) (todos (updateTodo_all d reqs))
     = map (\<lambda>t. (t_id t, t_user_id t)) (todos d)"
proof (induction reqs arbitrary: d)
  case Nil
  then show ?case by simp
next
  case (Cons r reqs)
  obtain i body now where r: "r = (i, body, now)"
    by (cases r) auto
  show ?case
    by (simp add: r Cons.IH updateTodo_keys)
qed

lemma find_user_id_keys:
  "map_option t_user_id (find (\<lambda>t. t_id t = i) xs)
     = map_of (map (\<lambda>t. (t_id t, t_user_id t)) xs) i"
  by (induction xs) auto

lemma select_todo_owner_keys:
  "map_option t_user_id (sql_select_todo_by_id d i)
     = map_of (map (\<lambda>t. (t_id t, t_user_id t)) (todos d)) i"
  by (simp add: sql_select_todo_by_id_def find_user_id_keys)

lemma updateTodo_returns_stored:
  assumes "updateTodo d i body now = (Inr (st, t'), d')"
  shows "sql_select_todo_by_id d' i = Some t'"
proof (cases "sql_select_todo_by_id d i")
  case None
  with assms show ?thesis by (simp add: updateTodo_not_found)
next
  case (Some t)
  show ?thesis
  proof (cases "ut_title body \<noteq> None \<or> ut_description body \<noteq> None \<or> ut_completed body \<noteq> None")
    case True
    let ?ups = "(case ut_title body of None \<Rightarrow> [] | Some s \<Rightarrow> [SetTitle s]) @
                (case ut_description body of None \<Rightarrow> [] | Some s \<Rightarrow> [SetDescription s]) @
                (case ut_completed body of None \<Rightarrow> [] | Some b \<Rightarrow> [SetCompleted b]) @
                [SetUpdatedAtNow]"
    have w: "updateTodo d i body now
        = (Inr (None, fold (apply_todo_assign now) ?ups t), sql_update_todo d ?ups i now)"
      by (rule updateTodo_write[OF Some True])
    from assms[unfolded w] have eqs: "t' = fold (apply_todo_assign now) ?ups t" "d' = sql_update_todo d ?ups i now"
      by simp_all
    show ?thesis
      unfolding eqs by (rule select_after_update_todo[OF Some])
  next
    case False
    with assms Some show ?thesis
      by (simp add: updateTodo_noop_gen[OF Some])
  qed
qed

text \<open>
  Claim C8. After createTodo has stored a todo for the user \<open>user_id\<close> of its request, and
  after any sequence of updateTodo requests (on any ids, with any bodies), the stored todo
  still has that \<open>user_id\<close>, and so has the todo that a further updateTodo on it returns.
  Since the sequence is arbitrary, this holds after each update.
\<close>

theorem todo_user_id_immutable:
  assumes "createTodo d body now = (Inr (st, t), d1)"
  shows "(\<exists>t'. sql_select_todo_by_id (updateTodo_all d1 reqs) (t_id t) = Some t'
              \<and> t_user_id t' = ct_user_id body)
       \<and> (updateTodo (updateTodo_all d1 reqs) (t_id t) b n = (Inr (st', t''), d2)
            \<longrightarrow> t_user_id t'' = ct_user_id body)"
proof -
  from createTodo_Inr_user[OF assms] obtain w
    where w: "sql_select_user_by_id d (ct_user_id body) = Some w" ..
  from assms createTodo_success[OF w, of now]
  have owner: "t_user_id t = ct_user_id body"
    and d1: "d1 = d\<lparr>todos := todos d @ [t], todos_seq := t_id t\<rparr>"
    and fresh: "t_id t = next_rowid (todos_seq d) (map t_id (todos d))"
    by auto
  have stored: "sql_select_todo_by_id d1 (t_id t) = Some t"
    unfolding d1 by (rule select_todo_append_fresh[OF fresh])
  have after: "map_option t_user_id (sql_select_todo_by_id (updateTodo_all d1 rs) (t_id t))
      = Some (ct_user_id body)" for rs
  proof -
    have "map_option t_user_id (sql_select_todo_by_id (updateTodo_all d1 rs) (t_id t))
        = map_option t_user_id (sql_select_todo_by_id d1 (t_id t))"
      by (simp only: select_todo_owner_keys updateTodo_all_keys)
    with stored owner show ?thesis by simp
  qed
  have first: "\<exists>t'. sql_select_todo_by_id (updateTodo_all d1 reqs) (t_id t) = Some t'
              \<and> t_user_id t' = ct_user_id body"
    using after[of reqs] by auto
  have second: "t_user_id t'' = ct_user_id body"
    if run: "updateTodo (updateTodo_all d1 reqs) (t_id t) b n = (Inr (st', t''), d2)"
  proof -
    have "sql_select_todo_by_id d2 (t_id t) = Some t''"
      by (rule updateTodo_returns_stored[OF run])
    moreover have "map (\<lambda>t. (t_id t, t_user_id t)) (todos d2)
        = map (\<lambda>t. (t_id t, t_user_id t)) (todos (updateTodo_all d1 reqs))"
      using updateTodo_keys[of "updateTodo_all d1 reqs" "t_id t" b n] run by simp
    ultimately have e: "Some (t_user_id t'')
        = map_option t_user_id (sql_select_todo_by_id (updateTodo_all d1 reqs) (t_id t))"
      using select_todo_owner_keys[of d2 "t_id t"]
        select_todo_owner_keys[of "updateTodo_all d1 reqs" "t_id t"] by simp
    from trans[OF e after[of reqs]] show ?thesis by simp
  qed
  from first second show ?thesis by blast
qed

lemma ex_updates_run:
  "updateTodo_all ex_db2 ex_updates = ex_db2\<lparr>todos := [ex_oat_milk]\<rparr>"
  by (simp add: ex_updates_def ex_db2_eq updateTodo_def updateTodo_try_def sql_update_todo_def
        sql_select_todo_by_id_def ex_milk_def ex_oat_milk_def)

theorem todo_user_id_immutable_witness:
  "createTodo ex_db1 \<lparr>ct_user_id = 1, ct_title = ''Buy milk'', ct_description = None\<rparr> 2
      = (Inr (Some 201, ex_milk), ex_db2)
   \<and> sql_select_todo_by_id (updateTodo_all ex_db2 ex_updates) 1 = Some ex_oat_milk
   \<and> t_user_id ex_oat_milk = 1
   \<and> updateTodo (updateTodo_all ex_db2 ex_updates) 1
        \<lparr>ut_title = None, ut_description = None, ut_completed = Some False\<rparr> 5
      = (Inr (None, ex_oat_milk\<lparr>t_completed := False, t_updated_at := 5\<rparr>),
         ex_db2\<lparr>todos := [ex_oat_milk\<lparr>t_completed := False, t_updated_at := 5\<rparr>]\<rparr>)
   \<and> t_user_id (ex_oat_milk\<lparr>t_completed := False, t_updated_at := 5\<rparr>) = 1"
proof -
  have ev: "updateTodo (updateTodo_all ex_db2 ex_updates) 1
        \<lparr>ut_title = None, ut_description = None, ut_completed = Some False\<rparr> 5
      = (Inr (None, ex_oat_milk\<lparr>t_completed := False, t_updated_at := 5\<rparr>),
         ex_db2\<lparr>todos := [ex_oat_milk\<lparr>t_completed := False, t_updated_at := 5\<rparr>]\<rparr>)"
    unfolding ex_updates_run
    by (simp add: ex_db2_eq updateTodo_def updateTodo_try_def sql_update_todo_def
        sql_select_todo_by_id_def ex_oat_milk_def)
  have sel: "sql_select_todo_by_id (updateTodo_all ex_db2 ex_updates) 1 = Some ex_oat_milk"
    unfolding ex_updates_run
    by (simp add: sql_select_todo_by_id_def ex_oat_milk_def)
  have id1: "t_id ex_milk = 1"
    by (simp add: ex_milk_def)
  from todo_user_id_immutable [OF ex_createTodo_milk, of ex_updates
      "\<lparr>ut_title = None, ut_description = None, ut_completed = Some False\<rparr>" 5 None
      "ex_oat_milk\<lparr>t_completed := False, t_updated_at := 5\<rparr>"
      "ex_db2\<lparr>todos := [ex_oat_milk\<lparr>t_completed := False, t_updated_at := 5\<rparr>]\<rparr>"]
    ev sel ex_createTodo_milk
  show ?thesis unfolding id1 by simp
qed


section \<open>Listing users\<close>

lemma ex_db5_reached:
  "snd (createUser (snd (createUser (snd (createUser (snd (createUser (snd (createUser db_init
      \<lparr>cu_name = ''Ann'', cu_email = ''ann@x.com''\<rparr> 10))
      \<lparr>cu_name = ''Bob'', cu_email = ''bob@x.com''\<rparr> 20))
      \<lparr>cu_name = ''Cy'', cu_email = ''cy@x.com''\<rparr> 20))
      \<lparr>cu_name = ''Di'', cu_email = ''di@x.com''\<rparr> 30))
      \<lparr>cu_name = ''Ed'', cu_email = ''ed@x.com''\<rparr> 40) = ex_db5"
  by (simp add: createUser_def createUser_try_def sql_insert_user_def db_init_def next_rowid_def
      sql_select_user_by_id_def ex_db5_def ex_u1_def ex_u2_def ex_u3_def ex_u4_def ex_u5_def)




lemma pages_adjacent:
  "take l (drop off xs) @ take l' (drop (off + l) xs) = take (l + l') (drop off xs)"
  by (simp add: take_add add.commute)


lemma sql_int64_in_range:
  "- (2 ^ 63) < i \<Longrightarrow> i < 2 ^ 63 \<Longrightarrow> sql_int64 (Whole i) = Some i"
  by (simp add: sql_int64_def)











section \<open>Deleting a user and listing a user's todos\<close>

lemma select_user_None_iff:
  "sql_select_user_by_id d i = None \<longleftrightarrow> (\<forall>u\<in>set (users d). u_id u \<noteq> i)"
  by (auto simp: sql_select_user_by_id_def find_None_iff)

lemma deleteUser_not_found:
  "sql_select_user_by_id d i = None \<Longrightarrow>
   deleteUser d i = (Inl (Thrown (Some 404) ''User not found''), d)"
  by (simp add: deleteUser_def deleteUser_try_def catch_keep_def)

lemma deleteUser_found:
  "sql_select_user_by_id d i = Some u \<Longrightarrow>
   deleteUser d i = (Inr (Some 204, ()), sql_delete_user d i)"
  by (simp add: deleteUser_def deleteUser_try_def)

lemma order_by_desc_set: "set (order_by_desc created xs) = set xs"
  by (simp add: order_by_desc_def)

lemma order_by_desc_Nil: "order_by_desc created [] = []"
  by (simp add: order_by_desc_def)

lemma getUserTodos_rows:
  "getUserTodos d uid c = Inr (None, rows) \<Longrightarrow>
   set rows = {t \<in> set (todos d). t_user_id t = uid \<and> (case c of None \<Rightarrow> True | Some b \<Rightarrow> t_completed t = b)}"
  by (auto simp: getUserTodos_def sql_select_todos_ordered_def order_by_desc_set)

lemma getUserTodos_no_rows:
  assumes "\<forall>t\<in>set (todos d). t_user_id t \<noteq> uid"
  shows "getUserTodos d uid c = Inr (None, [])"
proof -
  have "filter (\<lambda>t. t_user_id t = uid \<and> (case c of None \<Rightarrow> True | Some b \<Rightarrow> t_completed t = b))
          (todos d) = []"
    using assms by (simp add: filter_empty_conv)
  then show ?thesis
    by (simp add: getUserTodos_def sql_select_todos_ordered_def order_by_desc_Nil)
qed

lemma deleteUser_cascades_when_enforced:
  assumes "foreign_keys d" and "sql_select_user_by_id d i = Some u"
  shows "deleteUser d i = (Inr (Some 204, ()), sql_delete_user d i)
       \<and> (\<forall>t\<in>set (todos (sql_delete_user d i)). t_user_id t \<noteq> i)
       \<and> getUserTodos (sql_delete_user d i) i c = Inr (None, [])"
proof -
  have no: "\<forall>t\<in>set (todos (sql_delete_user d i)). t_user_id t \<noteq> i"
    using assms(1) by (simp add: sql_delete_user_def)
  from deleteUser_found[OF assms(2)] no getUserTodos_no_rows[OF no]
  show ?thesis by simp
qed

lemma deleteUser_keeps_todos_when_not_enforced:
  assumes "\<not> foreign_keys d" and "sql_select_user_by_id d i = Some u"
  shows "todos (snd (deleteUser d i)) = todos d"
  using assms by (simp add: deleteUser_found sql_delete_user_def)

lemma getUserTodos_unknown_user_when_ref_ok:
  assumes "ref_ok d" and "sql_select_user_by_id d uid = None"
  shows "getUserTodos d uid c = Inr (None, [])"
proof (rule getUserTodos_no_rows)
  show "\<forall>t\<in>set (todos d). t_user_id t \<noteq> uid"
  proof
    fix t assume "t \<in> set (todos d)"
    with assms(1) obtain u where "u \<in> set (users d)" "u_id u = t_user_id t"
      by (auto simp: ref_ok_def list_all_iff list_ex_iff)
    with assms(2) show "t_user_id t \<noteq> uid"
      by (auto simp: select_user_None_iff)
  qed
qed

text \<open>
  Claim C1, evaluated on the storage handle of database.ts. After POST /users (Ann) and
  POST /todos (for Ann), user 1 is stored and owns one todo; deleteUser succeeds with 204,
  and afterwards the todo with \<open>user_id = 1\<close> is still in the table and getUserTodos for
  user 1 still returns it. (On a connection that enforces foreign keys the claim holds:
  lemma \<open>deleteUser_cascades_when_enforced\<close>.)
\<close>

theorem deleteUser_leaves_todos_behind:
  "sql_select_user_by_id ex_db2 1 = Some ex_ann
   \<and> getUserTodos ex_db2 1 None = Inr (None, [ex_milk])
   \<and> deleteUser ex_db2 1 = (Inr (Some 204, ()), ex_db3)
   \<and> todos ex_db3 = [ex_milk] \<and> t_user_id ex_milk = 1
   \<and> getUserTodos ex_db3 1 None = Inr (None, [ex_milk])"
  by (simp add: ex_db2_eq ex_db3_eq deleteUser_def deleteUser_try_def sql_delete_user_def
      sql_select_user_by_id_def getUserTodos_def sql_select_todos_ordered_def order_by_desc_def
      ex_ann_def ex_milk_def)

text \<open>
  Claim C9, evaluated on the same storage after the deletion: no user has id 1 (getUser
  answers 404), getUserTodos does not fail, and it returns the todo left behind instead of
  the empty sequence; the \<open>completed\<close> filter applies as claimed. (Where referential
  integrity holds an unknown user does yield the empty sequence: lemma
  \<open>getUserTodos_unknown_user_when_ref_ok\<close>.)
\<close>

theorem getUserTodos_deleted_user_not_empty:
  "sql_select_user_by_id ex_db3 1 = None
   \<and> getUser ex_db3 1 = Inl (Thrown (Some 404) ''User not found'')
   \<and> getUserTodos ex_db3 1 None = Inr (None, [ex_milk])
   \<and> getUserTodos ex_db3 1 (Some False) = Inr (None, [ex_milk])
   \<and> getUserTodos ex_db3 1 (Some True) = Inr (None, [])"
  by (simp add: ex_db3_eq sql_select_user_by_id_def getUser_def getUser_try_def catch_keep_def
      getUserTodos_def sql_select_todos_ordered_def order_by_desc_def ex_milk_def)


section \<open>Invariants of the reachable states\<close>

lemma ref_ok_iff: "ref_ok d \<longleftrightarrow> t_user_id ` set (todos d) \<subseteq> u_id ` set (users d)"
  unfolding ref_ok_def list_all_iff list_ex_iff by force

lemma fold_user_assign_id: "u_id (fold apply_user_assign as u) = u_id u"
proof (induction as arbitrary: u)
  case Nil
  then show ?case by simp
next
  case (Cons a as)
  then show ?case by (cases a) simp_all
qed

lemma createUser_state:
  "snd (createUser d ub now) = d
   \<or> (\<exists>u. snd (createUser d ub now) = d\<lparr>users := users d @ [u], users_seq := u_id u\<rparr>
          \<and> u_id u \<notin> u_id ` set (users d))"
proof (cases "list_ex (\<lambda>u. u_email u = cu_email ub) (users d)")
  case True
  then show ?thesis by (simp add: createUser_conflict)
next
  case False
  let ?u = "\<lparr>u_id = next_rowid (users_seq d) (map u_id (users d)), u_name = cu_name ub,
             u_email = cu_email ub, u_created_at = now\<rparr>"
  have "u_id ?u \<notin> u_id ` set (users d)"
    using next_rowid_fresh[of _ "map u_id (users d)" "users_seq d"] by fastforce
  moreover have "snd (createUser d ub now) = d\<lparr>users := users d @ [?u], users_seq := u_id ?u\<rparr>"
    by (simp add: createUser_success[OF False])
  ultimately show ?thesis by blast
qed

lemma updateUser_state:
  "foreign_keys (snd (updateUser d i uu)) = foreign_keys d
   \<and> map u_id (users (snd (updateUser d i uu))) = map u_id (users d)
   \<and> todos (snd (updateUser d i uu)) = todos d"
  by (auto simp: updateUser_def updateUser_try_def sql_update_user_def Let_def
        fold_user_assign_id comp_def
      split: option.splits sum.splits)

lemma deleteUser_state:
  "snd (deleteUser d i) = d \<or> snd (deleteUser d i) = sql_delete_user d i"
  by (cases "sql_select_user_by_id d i") (simp_all add: deleteUser_not_found deleteUser_found)

lemma createTodo_state:
  "snd (createTodo d tb now) = d
   \<or> (\<exists>t. snd (createTodo d tb now) = d\<lparr>todos := todos d @ [t], todos_seq := t_id t\<rparr>
          \<and> t_user_id t \<in> u_id ` set (users d))"
proof (cases "sql_select_user_by_id d (ct_user_id tb)")
  case None
  then show ?thesis by (simp add: createTodo_no_user)
next
  case (Some u)
  let ?t = "\<lparr>t_id = next_rowid (todos_seq d) (map t_id (todos d)), t_user_id = ct_user_id tb,
             t_title = ct_title tb, t_description = or_null (ct_description tb),
             t_completed = False, t_created_at = now, t_updated_at = now\<rparr>"
  have "t_user_id ?t \<in> u_id ` set (users d)"
    using select_user_Some_ex[OF Some] by (force simp: list_ex_iff)
  moreover have "snd (createTodo d tb now) = d\<lparr>todos := todos d @ [?t], todos_seq := t_id ?t\<rparr>"
    by (simp add: createTodo_success[OF Some])
  ultimately show ?thesis by blast
qed

lemma updateTodo_state:
  "foreign_keys (snd (updateTodo d i ut now)) = foreign_keys d
   \<and> users (snd (updateTodo d i ut now)) = users d
   \<and> map t_user_id (todos (snd (updateTodo d i ut now))) = map t_user_id (todos d)"
proof -
  have "map (\<lambda>t. (t_id t, t_user_id t)) (todos (snd (updateTodo d i ut now)))
      = map (\<lambda>t. (t_id t, t_user_id t)) (todos d)"
    by (rule updateTodo_keys)
  then have "map snd (map (\<lambda>t. (t_id t, t_user_id t)) (todos (snd (updateTodo d i ut now))))
      = map snd (map (\<lambda>t. (t_id t, t_user_id t)) (todos d))"
    by (rule arg_cong)
  then have k: "map t_user_id (todos (snd (updateTodo d i ut now))) = map t_user_id (todos d)"
    by (simp add: comp_def)
  have "foreign_keys (snd (updateTodo d i ut now)) = foreign_keys d
      \<and> users (snd (updateTodo d i ut now)) = users d"
    by (auto simp: updateTodo_def updateTodo_try_def sql_update_todo_def Let_def
        split: option.splits)
  with k show ?thesis by simp
qed

lemma deleteTodo_state:
  "snd (deleteTodo d i) = d \<or> snd (deleteTodo d i) = sql_delete_todo d i"
  by (auto simp: deleteTodo_def deleteTodo_try_def catch_keep_def split: option.splits)

lemma reach_foreign_keys:
  "reach d0 d \<Longrightarrow> foreign_keys d = foreign_keys d0"
proof (induction rule: reach.induct)
  case reach_start
  show ?case by simp
next
  case (reach_createUser d ub now)
  with createUser_state[of d ub now] show ?case by auto
next
  case (reach_updateUser d i uu)
  with updateUser_state[of d i uu] show ?case by simp
next
  case (reach_deleteUser d i)
  with deleteUser_state[of d i] show ?case by (auto simp: sql_delete_user_def)
next
  case (reach_createTodo d tb now)
  with createTodo_state[of d tb now] show ?case by auto
next
  case (reach_updateTodo d i ut now)
  with updateTodo_state[of d i ut now] show ?case by simp
next
  case (reach_deleteTodo d i)
  with deleteTodo_state[of d i] show ?case by (auto simp: sql_delete_todo_def)
qed

lemma reach_distinct_user_ids:
  "reach d0 d \<Longrightarrow> distinct (map u_id (users d0)) \<Longrightarrow> distinct (map u_id (users d))"
proof (induction rule: reach.induct)
  case reach_start
  then show ?case by simp
next
  case (reach_createUser d ub now)
  with createUser_state[of d ub now] show ?case by auto
next
  case (reach_updateUser d i uu)
  with updateUser_state[of d i uu] show ?case by simp
next
  case (reach_deleteUser d i)
  with deleteUser_state[of d i] show ?case
    by (auto simp: sql_delete_user_def distinct_map_filter)
next
  case (reach_createTodo d tb now)
  with createTodo_state[of d tb now] show ?case by auto
next
  case (reach_updateTodo d i ut now)
  with updateTodo_state[of d i ut now] show ?case by simp
next
  case (reach_deleteTodo d i)
  with deleteTodo_state[of d i] show ?case by (auto simp: sql_delete_todo_def)
qed

lemma reach_ref_ok:
  "reach d0 d \<Longrightarrow> foreign_keys d0 \<Longrightarrow> ref_ok d0 \<Longrightarrow> ref_ok d"
proof (induction rule: reach.induct)
  case reach_start
  then show ?case by simp
next
  case (reach_createUser d ub now)
  with createUser_state[of d ub now] show ?case
    by (fastforce simp: ref_ok_iff)
next
  case (reach_updateUser d i uu)
  then have ok: "ref_ok d" by simp
  from updateUser_state[of d i uu]
  have "set (map u_id (users (snd (updateUser d i uu)))) = set (map u_id (users d))"
    and "todos (snd (updateUser d i uu)) = todos d"
    by simp_all
  with ok show ?case
    by (simp add: ref_ok_iff)
next
  case (reach_deleteUser d i)
  then have ok: "ref_ok d" and fk: "foreign_keys d"
    using reach_foreign_keys[of d0 d] by simp_all
  from deleteUser_state[of d i] show ?case
  proof
    assume "snd (deleteUser d i) = d"
    with ok show ?thesis by simp
  next
    assume "snd (deleteUser d i) = sql_delete_user d i"
    with ok fk show ?thesis
      by (fastforce simp: ref_ok_iff sql_delete_user_def)
  qed
next
  case (reach_createTodo d tb now)
  with createTodo_state[of d tb now] show ?case
    by (fastforce simp: ref_ok_iff)
next
  case (reach_updateTodo d i ut now)
  then have ok: "ref_ok d" by simp
  from updateTodo_state[of d i ut now]
  have "set (map t_user_id (todos (snd (updateTodo d i ut now)))) = set (map t_user_id (todos d))"
    and "users (snd (updateTodo d i ut now)) = users d"
    by simp_all
  with ok show ?case
    by (simp add: ref_ok_iff)
next
  case (reach_deleteTodo d i)
  with deleteTodo_state[of d i] show ?case
    by (fastforce simp: ref_ok_iff sql_delete_todo_def)
qed

lemma db_init_ok: "distinct (map u_id (users db_init))" "ref_ok db_init"
  by (simp_all add: db_init_def ref_ok_def)

lemma reach_enforced_unknown_user_empty:
  assumes "reach (db_init\<lparr>foreign_keys := True\<rparr>) d" and "sql_select_user_by_id d uid = None"
  shows "getUserTodos d uid c = Inr (None, [])"
proof -
  have "ref_ok (db_init\<lparr>foreign_keys := True\<rparr>)"
    by (simp add: db_init_def ref_ok_def)
  with assms(1) have "ref_ok d"
    by (auto intro: reach_ref_ok)
  then show ?thesis
    using assms(2) by (rule getUserTodos_unknown_user_when_ref_ok)
qed

lemma reach_ex_db3: "reach db_init ex_db3"
  unfolding ex_db3_def ex_db2_def ex_db1_def
  by (intro reach.intros)

lemma reach_ex_db5: "reach db_init ex_db5"
  unfolding ex_db5_reached[symmetric]
  by (intro reach.intros)

lemma fold_todo_assign_updated_at:
  "t_updated_at (fold (apply_todo_assign now) as t) = t_updated_at t
   \<or> t_updated_at (fold (apply_todo_assign now) as t) = now"
proof (induction as arbitrary: t)
  case Nil
  then show ?case by simp
next
  case (Cons a as)
  show ?case
  proof (cases a)
    case SetUpdatedAtNow
    with Cons[of "t\<lparr>t_updated_at := now\<rparr>"] show ?thesis by auto
  next
    case (SetTitle s)
    with Cons[of "t\<lparr>t_title := s\<rparr>"] show ?thesis by auto
  next
    case (SetDescription s)
    with Cons[of "t\<lparr>t_description := Some s\<rparr>"] show ?thesis by auto
  next
    case (SetCompleted b)
    with Cons[of "t\<lparr>t_completed := b\<rparr>"] show ?thesis by auto
  qed
qed

lemma updateTodo_stamps:
  assumes "\<forall>t\<in>set (todos d). t_updated_at t \<le> c"
  shows "\<forall>t\<in>set (todos (snd (updateTodo d i ut c))). t_updated_at t \<le> c"
proof (cases "sql_select_todo_by_id d i")
  case None
  with assms show ?thesis by (simp add: updateTodo_not_found)
next
  case (Some t)
  show ?thesis
  proof (cases "ut_title ut \<noteq> None \<or> ut_description ut \<noteq> None \<or> ut_completed ut \<noteq> None")
    case True
    have "t_updated_at (fold (apply_todo_assign c) as x) \<le> c" if "x \<in> set (todos d)" for as x
      using fold_todo_assign_updated_at[of c as x] assms that by auto
    with assms show ?thesis
      by (simp only: updateTodo_write[OF Some True] snd_conv) (auto simp: sql_update_todo_def)
  next
    case False
    with assms show ?thesis
      by (simp add: updateTodo_noop_gen[OF Some])
  qed
qed

lemma clock_run_stamps:
  "clock_run c d \<Longrightarrow> \<forall>t\<in>set (todos d). t_updated_at t \<le> c"
proof (induction rule: clock_run.induct)
  case clock_start
  show ?case by (simp add: db_init_def)
next
  case (clock_tick c d c')
  then show ?case by fastforce
next
  case (clock_createUser c d ub)
  with createUser_state[of d ub c] show ?case by auto
next
  case (clock_updateUser c d i uu)
  with updateUser_state[of d i uu] show ?case by simp
next
  case (clock_deleteUser c d i)
  with deleteUser_state[of d i] show ?case
    by (auto simp: sql_delete_user_def split: if_splits)
next
  case (clock_createTodo c d tb)
  show ?case
  proof (cases "sql_select_user_by_id d (ct_user_id tb)")
    case None
    with clock_createTodo show ?thesis by (simp add: createTodo_no_user)
  next
    case (Some u)
    with clock_createTodo show ?thesis by (simp add: createTodo_success[OF Some])
  qed
next
  case (clock_updateTodo c d i ut)
  then show ?case by (intro updateTodo_stamps)
next
  case (clock_deleteTodo c d i)
  with deleteTodo_state[of d i] show ?case by (auto simp: sql_delete_todo_def)
qed

text \<open>
  On such a run no stored \<open>updated_at\<close> lies in the future, which is the premise under
  which an update cannot lower \<open>updated_at\<close>.
\<close>

lemma clock_run_updated_at_le:
  assumes "clock_run c d" and "c \<le> now" and "sql_select_todo_by_id d i = Some t"
  shows "t_updated_at t \<le> now"
proof -
  from assms(3) have "t \<in> set (todos d)"
    by (auto simp: sql_select_todo_by_id_def find_Some_iff)
  with clock_run_stamps[OF assms(1)] assms(2) show ?thesis by fastforce
qed

lemma clock_run_ex_db2: "clock_run 2 ex_db2"
proof -
  have "clock_run 1 db_init"
    by (rule clock_tick[OF clock_start]) simp
  then have "clock_run 1 ex_db1"
    unfolding ex_db1_def by (rule clock_createUser)
  then have "clock_run 2 ex_db1"
    by (rule clock_tick) simp
  then show ?thesis
    unfolding ex_db2_def by (rule clock_createTodo)
qed


section \<open>Updating a todo while the clock runs\<close>

text \<open>
  Claim C5. For a stored todo and a request with at least one of \<open>title\<close>, \<open>description\<close>,
  \<open>completed\<close>, updateTodo succeeds and returns the stored row after the update: each field
  of the request that is present has the request's value, each absent one its previous
  value, \<open>updated_at\<close> is the time \<open>now\<close> of the statement, and \<open>id\<close>, \<open>user_id\<close> and
  \<open>created_at\<close> are as before; every other todo and the users are untouched. The time of a
  statement is the reading of the engine's clock: when the storage was reached from the
  fresh one by statements at non-decreasing times, none later than \<open>c\<close>, and the update runs
  at a time \<open>now \<ge> c\<close>, the returned \<open>updated_at\<close> is greater than or equal to the one the
  todo had before.
\<close>

theorem updateTodo_applies_provided_fields:
  assumes "sql_select_todo_by_id d i = Some t"
      and "ut_title body \<noteq> None \<or> ut_description body \<noteq> None \<or> ut_completed body \<noteq> None"
  shows "\<exists>t' d'. updateTodo d i body now = (Inr (None, t'), d')
     \<and> sql_select_todo_by_id d' i = Some t'
     \<and> t_title t' = (case ut_title body of None \<Rightarrow> t_title t | Some s \<Rightarrow> s)
     \<and> t_description t' = (case ut_description body of None \<Rightarrow> t_description t | Some s \<Rightarrow> Some s)
     \<and> t_completed t' = (case ut_completed body of None \<Rightarrow> t_completed t | Some b \<Rightarrow> b)
     \<and> t_updated_at t' = now
     \<and> (clock_run c d \<and> c \<le> now \<longrightarrow> t_updated_at t \<le> t_updated_at t')
     \<and> t_id t' = t_id t \<and> t_user_id t' = t_user_id t \<and> t_created_at t' = t_created_at t
     \<and> (\<forall>j. j \<noteq> i \<longrightarrow> sql_select_todo_by_id d' j = sql_select_todo_by_id d j)
     \<and> users d' = users d"
proof -
  let ?ups = "(case ut_title body of None \<Rightarrow> [] | Some s \<Rightarrow> [SetTitle s]) @
              (case ut_description body of None \<Rightarrow> [] | Some s \<Rightarrow> [SetDescription s]) @
              (case ut_completed body of None \<Rightarrow> [] | Some b \<Rightarrow> [SetCompleted b]) @
              [SetUpdatedAtNow]"
  let ?t' = "fold (apply_todo_assign now) ?ups t"
  let ?d' = "sql_update_todo d ?ups i now"
  have run: "updateTodo d i body now = (Inr (None, ?t'), ?d')"
    by (rule updateTodo_write[OF assms])
  have sel: "sql_select_todo_by_id ?d' i = Some ?t'"
    by (rule select_after_update_todo[OF assms(1)])
  have fields: "t_title ?t' = (case ut_title body of None \<Rightarrow> t_title t | Some s \<Rightarrow> s)"
    "t_description ?t' = (case ut_description body of None \<Rightarrow> t_description t | Some s \<Rightarrow> Some s)"
    "t_completed ?t' = (case ut_completed body of None \<Rightarrow> t_completed t | Some b \<Rightarrow> b)"
    "t_updated_at ?t' = now" "t_created_at ?t' = t_created_at t"
    by (simp_all split: option.splits)
  have keys: "t_id ?t' = t_id t" "t_user_id ?t' = t_user_id t"
    by (rule fold_todo_assign_id, rule fold_todo_assign_user_id)
  have frame: "\<forall>j. j \<noteq> i \<longrightarrow> sql_select_todo_by_id ?d' j = sql_select_todo_by_id d j"
    by (simp add: select_other_after_update_todo)
  have usr: "users ?d' = users d"
    by (simp add: sql_update_todo_def)
  have clock: "clock_run c d \<and> c \<le> now \<longrightarrow> t_updated_at t \<le> t_updated_at ?t'"
  proof
    assume "clock_run c d \<and> c \<le> now"
    then have "t_updated_at t \<le> now"
      using assms(1) by (blast intro: clock_run_updated_at_le)
    with fields(4) show "t_updated_at t \<le> t_updated_at ?t'"
      by (simp only:)
  qed
  from run sel fields keys frame usr clock show ?thesis
    by (intro exI[of _ ?t'] exI[of _ ?d']) simp
qed

theorem updateTodo_applies_provided_fields_witness:
  "sql_select_todo_by_id ex_db2 1 = Some ex_milk
   \<and> clock_run 2 ex_db2 \<and> (2::nat) \<le> 3
   \<and> updateTodo ex_db2 1 \<lparr>ut_title = None, ut_description = None, ut_completed = Some True\<rparr> 3
       = (Inr (None, ex_milk_done), ex_db2\<lparr>todos := [ex_milk_done]\<rparr>)
   \<and> (\<exists>t' d'. updateTodo ex_db2 1 \<lparr>ut_title = None, ut_description = None, ut_completed = Some True\<rparr> 3
                 = (Inr (None, t'), d')
        \<and> t_title t' = ''Buy milk'' \<and> t_description t' = None \<and> t_completed t' = True
        \<and> t_updated_at t' = 3 \<and> t_updated_at ex_milk \<le> t_updated_at t' \<and> t_user_id t' = 1)"
proof -
  have h1: "sql_select_todo_by_id ex_db2 1 = Some ex_milk"
    by (simp add: ex_db2_eq sql_select_todo_by_id_def ex_milk_def)
  have h2: "ut_title \<lparr>ut_title = None, ut_description = None, ut_completed = Some True\<rparr> \<noteq> None
     \<or> ut_description \<lparr>ut_title = None, ut_description = None, ut_completed = Some True\<rparr> \<noteq> None
     \<or> ut_completed \<lparr>ut_title = None, ut_description = None, ut_completed = Some True\<rparr> \<noteq> None"
    by simp
  have h3: "clock_run 2 ex_db2 \<and> (2::nat) \<le> 3"
    using clock_run_ex_db2 by simp
  have ev: "updateTodo ex_db2 1 \<lparr>ut_title = None, ut_description = None, ut_completed = Some True\<rparr> 3
       = (Inr (None, ex_milk_done), ex_db2\<lparr>todos := [ex_milk_done]\<rparr>)"
    by (simp add: ex_db2_eq updateTodo_def updateTodo_try_def sql_update_todo_def
        sql_select_todo_by_id_def ex_milk_def ex_milk_done_def)
  from updateTodo_applies_provided_fields [OF h1 h2, of 3 2] h3
  obtain t' d' where
    "updateTodo ex_db2 1 \<lparr>ut_title = None, ut_description = None, ut_completed = Some True\<rparr> 3
                 = (Inr (None, t'), d')"
    "t_title t' = t_title ex_milk" "t_description t' = t_description ex_milk" "t_completed t' = True"
    "t_updated_at t' = 3" "t_updated_at ex_milk \<le> t_updated_at t'" "t_user_id t' = t_user_id ex_milk"
    by auto
  then have "\<exists>t' d'. updateTodo ex_db2 1 \<lparr>ut_title = None, ut_description = None, ut_completed = Some True\<rparr> 3
                 = (Inr (None, t'), d')
        \<and> t_title t' = ''Buy milk'' \<and> t_description t' = None \<and> t_completed t' = True
        \<and> t_updated_at t' = 3 \<and> t_updated_at ex_milk \<le> t_updated_at t' \<and> t_user_id t' = 1"
    by (intro exI[of _ t'] exI[of _ d']) (simp add: ex_milk_def)
  with h1 h3 ev show ?thesis by blast
qed

end
